theory Spec2Isabelle
  imports Complex_Main "HOL-Library.Word"
begin

unbundle bit_operations_syntax

section \<open>Buffers, hexadecimal strings and big integers\<close>

text \<open>
  A Node.js \<^verbatim>\<open>Buffer\<close> is a sequence of bytes; a JavaScript \<^verbatim>\<open>bigint\<close> is an unbounded
  integer. The utilities below are the ones of \<^verbatim>\<open>QuantumCrypto\<close> (\<^verbatim>\<open>utils/crypto.ts\<close>).
\<close>

type_synonym byte = "8 word"
type_synonym buffer = "byte list"

text \<open>The big-endian integer denoted by a byte sequence (the empty sequence denotes 0).\<close>

definition be_val :: "buffer \<Rightarrow> int" where
  "be_val bs = foldl (\<lambda>acc b. 256 * acc + uint b) 0 bs"

text \<open>\<^verbatim>\<open>buffer.toString('hex')\<close>: two lower-case hexadecimal digits per byte.\<close>

definition hexDigit :: "nat \<Rightarrow> char" where
  "hexDigit d = ''0123456789abcdef'' ! d"

definition hexDigitValue :: "char \<Rightarrow> nat option" where
  "hexDigitValue c =
     (let n = of_char c :: nat in
      if 48 \<le> n \<and> n \<le> 57 then Some (n - 48)
      else if 97 \<le> n \<and> n \<le> 102 then Some (n - 87)
      else if 65 \<le> n \<and> n \<le> 70 then Some (n - 55)
      else None)"

definition Buffer_toString_hex :: "buffer \<Rightarrow> string" where
  "Buffer_toString_hex buf = concat (map (\<lambda>b. [hexDigit (unat b div 16), hexDigit (unat b mod 16)]) buf)"

text \<open>
  \<^verbatim>\<open>BigInt(`0x${hex}`)\<close> for a non-empty string of hexadecimal digits (every call site
  passes the hexadecimal rendering of a non-empty buffer).
\<close>

definition BigInt_0x :: "string \<Rightarrow> int" where
  "BigInt_0x hex = foldl (\<lambda>acc c. 16 * acc + int (the (hexDigitValue c))) 0 hex"

text \<open>\<^verbatim>\<open>int.toString(16)\<close>: no leading zeros, a minus sign in front of a negative value.\<close>

fun nat_toString16 :: "nat \<Rightarrow> string" where
  "nat_toString16 n =
     (if n < 16 then [hexDigit n] else nat_toString16 (n div 16) @ [hexDigit (n mod 16)])"

declare nat_toString16.simps [simp del]

definition BigInt_toString16 :: "int \<Rightarrow> string" where
  "BigInt_toString16 v =
     (if v < 0 then CHR ''-'' # nat_toString16 (nat (- v)) else nat_toString16 (nat v))"

definition padStart :: "string \<Rightarrow> nat \<Rightarrow> char \<Rightarrow> string" where
  "padStart s targetLength c = replicate (targetLength - length s) c @ s"

text \<open>
  \<^verbatim>\<open>Buffer.from(hex, 'hex')\<close> decodes pairs of hexadecimal digits and stops at the first
  pair that is not one (so a string that starts with a minus sign decodes to the empty buffer).
\<close>

fun Buffer_from_hex :: "string \<Rightarrow> buffer" where
  "Buffer_from_hex (c1 # c2 # cs) =
     (case (hexDigitValue c1, hexDigitValue c2) of
        (Some h, Some l) \<Rightarrow> word_of_nat (16 * h + l) # Buffer_from_hex cs
      | _ \<Rightarrow> [])"
| "Buffer_from_hex _ = []"

text \<open>\<^verbatim>\<open>buffer.slice(start, end)\<close> for \<^verbatim>\<open>end \<le> buffer.length\<close>.\<close>

definition Buffer_slice :: "buffer \<Rightarrow> nat \<Rightarrow> nat \<Rightarrow> buffer" where
  "Buffer_slice buf start end = take (end - start) (drop start buf)"

text \<open>
  \<^verbatim>\<open>bufferToBigInts(buffer, count)\<close>. The count is a JavaScript number and one caller passes
  \<^verbatim>\<open>length / 8\<close>, so it is a rational here: the loop \<^verbatim>\<open>for (i = 0; i < count; i++)\<close> runs
  \<open>\<lceil>count\<rceil>\<close> times (not at all when \<open>count \<le> 0\<close>).
\<close>

definition bufferToBigInts :: "buffer \<Rightarrow> rat \<Rightarrow> int list" where
  "bufferToBigInts buffer count =
     (let bytesPerInt = nat \<lceil>of_nat (length buffer) / count\<rceil> in
      map (\<lambda>i.
        let start = i * bytesPerInt;
            end = min (start + bytesPerInt) (length buffer);
            slice = Buffer_slice buffer start end
        in if length slice = 0 then 0
           else BigInt_0x (padStart (Buffer_toString_hex slice) (length slice * 2) CHR ''0''))
        [0..<nat \<lceil>count\<rceil>])"

text \<open>\<^verbatim>\<open>bigIntsToBuffer(ints)\<close>: the body of the \<^verbatim>\<open>map\<close> callback, then the concatenation.\<close>

definition bigIntToBuffer :: "int \<Rightarrow> buffer" where
  "bigIntToBuffer v =
     (let hex = BigInt_toString16 v
      in Buffer_from_hex (padStart hex (length hex + length hex mod 2) CHR ''0''))"

definition bigIntsToBuffer :: "int list \<Rightarrow> buffer" where
  "bigIntsToBuffer ints = concat (map bigIntToBuffer ints)"

section \<open>SHA-256 and HMAC\<close>

text \<open>
  \<^verbatim>\<open>QuantumCrypto.hash\<close> and \<^verbatim>\<open>QuantumCrypto.hmac\<close> call Node's \<^verbatim>\<open>createHash('sha256')\<close> and
  \<^verbatim>\<open>createHmac('sha256', key)\<close>, that is SHA-256 of FIPS 180-4 and HMAC of RFC 2104. A 32-bit
  word is a list of 32 bits, least significant bit first, so that the digest of a concrete
  message can be computed by rewriting.
\<close>

type_synonym bits = "bool list"

fun bxor :: "bits \<Rightarrow> bits \<Rightarrow> bits" where
  "bxor (x # xs) (y # ys) = (x \<noteq> y) # bxor xs ys"
| "bxor _ _ = []"

fun band :: "bits \<Rightarrow> bits \<Rightarrow> bits" where
  "band (x # xs) (y # ys) = (x \<and> y) # band xs ys"
| "band _ _ = []"

fun bnot :: "bits \<Rightarrow> bits" where
  "bnot (x # xs) = (\<not> x) # bnot xs"
| "bnot [] = []"

fun badd :: "bool \<Rightarrow> bits \<Rightarrow> bits \<Rightarrow> bits" where
  "badd c (x # xs) (y # ys) = (x \<noteq> (y \<noteq> c)) # badd ((x \<and> y) \<or> (c \<and> (x \<or> y))) xs ys"
| "badd c _ _ = []"

definition add32 :: "bits \<Rightarrow> bits \<Rightarrow> bits" where
  "add32 x y = badd False x y"

definition rotr :: "nat \<Rightarrow> bits \<Rightarrow> bits" where
  "rotr n x = drop n x @ take n x"

definition shr :: "nat \<Rightarrow> bits \<Rightarrow> bits" where
  "shr n x = drop n x @ replicate n False"

definition Ch :: "bits \<Rightarrow> bits \<Rightarrow> bits \<Rightarrow> bits" where
  "Ch x y z = bxor (band x y) (band (bnot x) z)"

definition Maj :: "bits \<Rightarrow> bits \<Rightarrow> bits \<Rightarrow> bits" where
  "Maj x y z = bxor (bxor (band x y) (band x z)) (band y z)"

definition bsig0 :: "bits \<Rightarrow> bits" where
  "bsig0 x = bxor (bxor (rotr 2 x) (rotr 13 x)) (rotr 22 x)"

definition bsig1 :: "bits \<Rightarrow> bits" where
  "bsig1 x = bxor (bxor (rotr 6 x) (rotr 11 x)) (rotr 25 x)"

definition ssig0 :: "bits \<Rightarrow> bits" where
  "ssig0 x = bxor (bxor (rotr 7 x) (rotr 18 x)) (shr 3 x)"

definition ssig1 :: "bits \<Rightarrow> bits" where
  "ssig1 x = bxor (bxor (rotr 17 x) (rotr 19 x)) (shr 10 x)"

fun nat_bits :: "nat \<Rightarrow> nat \<Rightarrow> bits" where
  "nat_bits 0 x = []"
| "nat_bits (Suc n) x = odd x # nat_bits n (x div 2)"

fun bits_nat :: "bits \<Rightarrow> nat" where
  "bits_nat [] = 0"
| "bits_nat (b # bs) = (if b then 1 else 0) + 2 * bits_nat bs"

text \<open>
  The round constants (the first 32 bits of the fractional parts of the cube roots of the
  first 64 primes) and the initial state (the same of the square roots of the first 8),
  in decimal.
\<close>

definition K256 :: "nat list" where
  "K256 =
    [1116352408, 1899447441, 3049323471, 3921009573, 961987163, 1508970993,
     2453635748, 2870763221, 3624381080, 310598401, 607225278, 1426881987,
     1925078388, 2162078206, 2614888103, 3248222580, 3835390401, 4022224774,
     264347078, 604807628, 770255983, 1249150122, 1555081692, 1996064986,
     2554220882, 2821834349, 2952996808, 3210313671, 3336571891, 3584528711,
     113926993, 338241895, 666307205, 773529912, 1294757372, 1396182291,
     1695183700, 1986661051, 2177026350, 2456956037, 2730485921, 2820302411,
     3259730800, 3345764771, 3516065817, 3600352804, 4094571909, 275423344,
     430227734, 506948616, 659060556, 883997877, 958139571, 1322822218,
     1537002063, 1747873779, 1955562222, 2024104815, 2227730452, 2361852424,
     2428436474, 2756734187, 3204031479, 3329325298]"

definition H256 :: "nat list" where
  "H256 =
    [1779033703, 3144134277, 1013904242, 2773480762, 1359893119, 2600822924,
     528734635, 1541459225]"

definition T1 :: "bits \<Rightarrow> bits \<Rightarrow> bits \<Rightarrow> bits \<Rightarrow> bits \<Rightarrow> bits \<Rightarrow> bits" where
  "T1 k w e f g h = add32 (add32 (add32 (add32 h (bsig1 e)) (Ch e f g)) k) w"

definition T2 :: "bits \<Rightarrow> bits \<Rightarrow> bits \<Rightarrow> bits" where
  "T2 a b c = add32 (bsig0 a) (Maj a b c)"

fun sha_shift :: "bits \<Rightarrow> bits \<Rightarrow> bits list \<Rightarrow> bits list" where
  "sha_shift t1 t2 [a, b, c, d, e, f, g, h] = [add32 t1 t2, a, b, c, add32 d t1, e, f, g]"
| "sha_shift t1 t2 s = s"

fun sha_step :: "bits \<Rightarrow> bits \<Rightarrow> bits list \<Rightarrow> bits list" where
  "sha_step k w [a, b, c, d, e, f, g, h] =
     sha_shift (T1 k w e f g h) (T2 a b c) [a, b, c, d, e, f, g, h]"
| "sha_step k w s = s"

definition next_w :: "bits list \<Rightarrow> bits" where
  "next_w w = add32 (add32 (add32 (ssig1 (w ! 14)) (w ! 9)) (ssig0 (w ! 1))) (w ! 0)"

fun sha_rounds :: "bits list \<Rightarrow> bits list \<Rightarrow> bits list \<Rightarrow> bits list" where
  "sha_rounds [] w s = s"
| "sha_rounds (k # ks) w s = sha_rounds ks (tl w @ [next_w w]) (sha_step k (hd w) s)"

fun block_words :: "bits list \<Rightarrow> bits list" where
  "block_words (b0 # b1 # b2 # b3 # bs) = (b3 @ b2 @ b1 @ b0) # block_words bs"
| "block_words _ = []"

fun add_words :: "bits list \<Rightarrow> bits list \<Rightarrow> bits list" where
  "add_words (x # xs) (y # ys) = add32 x y # add_words xs ys"
| "add_words _ _ = []"

definition sha_compress :: "bits list \<Rightarrow> bits list \<Rightarrow> bits list" where
  "sha_compress s blk = add_words s (sha_rounds (map (nat_bits 32) K256) (block_words blk) s)"

definition word_bytes :: "bits \<Rightarrow> bits list" where
  "word_bytes w = [take 8 (drop 24 w), take 8 (drop 16 w), take 8 (drop 8 w), take 8 w]"

definition sha_digest :: "bits list list \<Rightarrow> bits list" where
  "sha_digest blocks = concat (map word_bytes (foldl sha_compress (map (nat_bits 32) H256) blocks))"

definition len_bytes :: "nat \<Rightarrow> buffer" where
  "len_bytes n = map (\<lambda>i. word_of_nat ((n * 8) div 2 ^ i)) [56, 48, 40, 32, 24, 16, 8, 0]"

definition sha_pad :: "buffer \<Rightarrow> buffer" where
  "sha_pad m = m @ [0x80] @ replicate ((119 - length m mod 64) mod 64) 0 @ len_bytes (length m)"

fun chunks :: "nat \<Rightarrow> 'a list \<Rightarrow> 'a list list" where
  "chunks 0 xs = []"
| "chunks (Suc n) xs = take 64 xs # chunks n (drop 64 xs)"

definition byte_bits :: "byte \<Rightarrow> bits" where
  "byte_bits b = nat_bits 8 (unat b)"

definition bits_byte :: "bits \<Rightarrow> byte" where
  "bits_byte bs = word_of_nat (bits_nat bs)"

text \<open>The digest: pad, split into 64-byte blocks, compress, and write the state big-endian.\<close>

definition sha256 :: "buffer \<Rightarrow> buffer" where
  "sha256 m = map bits_byte (sha_digest (map (map byte_bits)
                (chunks (length (sha_pad m) div 64) (sha_pad m))))"


text \<open>\<^verbatim>\<open>hash(data, 'sha256')\<close>; every caller in the four engines uses the default \<^verbatim>\<open>'sha256'\<close>.\<close>

definition hash :: "buffer \<Rightarrow> buffer" where
  "hash data = sha256 data"

text \<open>\<^verbatim>\<open>hmac(data, key, 'sha256')\<close>.\<close>

definition hmac :: "buffer \<Rightarrow> buffer \<Rightarrow> buffer" where
  "hmac data key =
     (let k0 = (if 64 < length key then sha256 key else key);
          k = k0 @ replicate (64 - length k0) 0
      in sha256 (map (\<lambda>b. b XOR 0x5c) k @ sha256 (map (\<lambda>b. b XOR 0x36) k @ data)))"

declare nat_bits.simps [simp del] bits_nat.simps [simp del]

section \<open>Hash chains, hash combination and Merkle trees\<close>

text \<open>A JavaScript \<^verbatim>\<open>throw new Error(message)\<close> is the value \<open>Inl (Error message)\<close>.\<close>

datatype error = Error string

text \<open>\<^verbatim>\<open>Buffer.from(text, 'utf8')\<close>; a \<^typ>\<open>string\<close> holds the bytes of the text.\<close>

definition utf8 :: "string \<Rightarrow> buffer" where
  "utf8 s = map (\<lambda>c. of_nat (of_char c)) s"

text \<open>
  The loop of \<^verbatim>\<open>createHashChain\<close>: \<^verbatim>\<open>current = hash(current); chain.push(current)\<close>,
  \<^verbatim>\<open>length\<close> times.
\<close>

fun hashChain_loop :: "buffer \<Rightarrow> nat \<Rightarrow> buffer list" where
  "hashChain_loop current 0 = []"
| "hashChain_loop current (Suc n) = hash current # hashChain_loop (hash current) n"

text \<open>\<^verbatim>\<open>QuantumCrypto.createHashChain(seed, length)\<close>.\<close>

definition createHashChain :: "buffer \<Rightarrow> int \<Rightarrow> error + buffer list" where
  "createHashChain seed len =
     (if len \<le> 0 then Inl (Error ''Chain length must be positive'')
      else Inr (hashChain_loop seed (nat len)))"


text \<open>
  \<^verbatim>\<open>HashZKP.verifyHashChain(hashChain)\<close>: the loop over \<^verbatim>\<open>i = 1, ..., length - 1\<close>, with its
  early return.
\<close>

function verifyHashChain_loop :: "buffer list \<Rightarrow> nat \<Rightarrow> bool" where
  "verifyHashChain_loop hashChain i =
     (if i < length hashChain then
        (let expected = hash (hashChain ! (i - 1))
         in if expected \<noteq> hashChain ! i then False
            else verifyHashChain_loop hashChain (i + 1))
      else True)"
  by pat_completeness auto
termination
  by (relation "measure (\<lambda>(hashChain, i). length hashChain - i)") auto

declare verifyHashChain_loop.simps [simp del]

definition verifyHashChain :: "buffer list \<Rightarrow> bool" where
  "verifyHashChain hashChain =
     (if length hashChain < 2 then False else verifyHashChain_loop hashChain 1)"

text \<open>
  \<^verbatim>\<open>QuantumCrypto.combineHashes(hashes)\<close>; \<^verbatim>\<open>reduce\<close> without an initial value starts from
  the first element and folds the others in, left to right.
\<close>

definition combineHashes :: "buffer list \<Rightarrow> error + buffer" where
  "combineHashes hashes =
     (if length hashes = 0 then Inl (Error ''Cannot combine empty hash array'')
      else if length hashes = 1 then Inr (hashes ! 0)
      else Inr (foldl (\<lambda>acc h. hash (acc @ h)) (hd hashes) (tl hashes)))"

text \<open>
  One pass of the inner loop of \<^verbatim>\<open>generateMerkleTree\<close>: adjacent pairs are hashed, and the
  last node of a level of odd length is paired with itself.
\<close>

fun nextLevel :: "buffer list \<Rightarrow> buffer list" where
  "nextLevel (left # right # rest) = hash (left @ right) # nextLevel rest"
| "nextLevel [left] = [hash (left @ left)]"
| "nextLevel [] = []"

lemma length_nextLevel: "length (nextLevel level) = (length level + 1) div 2"
  by (induction level rule: nextLevel.induct) simp_all

text \<open>The outer loop, \<^verbatim>\<open>while (currentLevel.length > 1)\<close>: the levels above \<open>currentLevel\<close>.\<close>

function merkleLevels :: "buffer list \<Rightarrow> buffer list list" where
  "merkleLevels currentLevel =
     (if 1 < length currentLevel
      then nextLevel currentLevel # merkleLevels (nextLevel currentLevel)
      else [])"
  by pat_completeness auto
termination
  by (relation "measure length") (auto simp: length_nextLevel)

declare merkleLevels.simps [simp del]

text \<open>\<^verbatim>\<open>QuantumCrypto.generateMerkleTree(leaves)\<close> returns the levels and the root.\<close>

definition generateMerkleTree :: "buffer list \<Rightarrow> error + (buffer list list \<times> buffer)" where
  "generateMerkleTree leaves =
     (if length leaves = 0 then Inl (Error ''Cannot generate Merkle tree with no leaves'')
      else let tree = leaves # merkleLevels leaves in Inr (tree, last tree ! 0))"

text \<open>
  \<^verbatim>\<open>QuantumCrypto.generateMerkleProof(tree, leafIndex)\<close>: the loop over the levels below the
  top one; a sibling is pushed only when its index exists in the level.
\<close>

fun merkleProof_loop :: "buffer list list \<Rightarrow> nat \<Rightarrow> buffer list" where
  "merkleProof_loop [] currentIndex = []"
| "merkleProof_loop (level # levels) currentIndex =
     (let isRight = (currentIndex mod 2 = 1);
          siblingIndex = (if isRight then currentIndex - 1 else currentIndex + 1)
      in (if siblingIndex < length level then [level ! siblingIndex] else [])
         @ merkleProof_loop levels (currentIndex div 2))"

definition generateMerkleProof :: "buffer list list \<Rightarrow> nat \<Rightarrow> buffer list" where
  "generateMerkleProof tree leafIndex = merkleProof_loop (butlast tree) leafIndex"

text \<open>\<^verbatim>\<open>QuantumCrypto.verifyMerkleProof(leaf, proof, root, leafIndex)\<close>.\<close>

fun merkleFold :: "buffer \<Rightarrow> buffer list \<Rightarrow> nat \<Rightarrow> buffer" where
  "merkleFold currentHash [] currentIndex = currentHash"
| "merkleFold currentHash (sibling # rest) currentIndex =
     (let isRight = (currentIndex mod 2 = 1);
          combined = (if isRight then sibling @ currentHash else currentHash @ sibling)
      in merkleFold (hash combined) rest (currentIndex div 2))"

definition verifyMerkleProof :: "buffer \<Rightarrow> buffer list \<Rightarrow> buffer \<Rightarrow> nat \<Rightarrow> bool" where
  "verifyMerkleProof leaf proof rootHash leafIndex = (merkleFold leaf proof leafIndex = rootHash)"

section \<open>Random big integers and LWE samples\<close>

text \<open>The remainder \<^verbatim>\<open>a % b\<close> of JavaScript big integers takes the sign of the dividend.\<close>

definition js_rem :: "int \<Rightarrow> int \<Rightarrow> int" where
  "js_rem a b = sgn a * (\<bar>a\<bar> mod \<bar>b\<bar>)"

text \<open>
  The secure random source is an input of the model: a function that calls
  \<^verbatim>\<open>generateRandomBytes(n)\<close> receives the bytes the source returned and reads \<open>n\<close> of them.
  A loop that draws once per iteration receives a list of such buffers; \<open>draw\<close> reads the
  \<open>i\<close>-th one.
\<close>

definition draw :: "buffer list \<Rightarrow> nat \<Rightarrow> buffer" where
  "draw randomSource i = (if i < length randomSource then randomSource ! i else [])"

text \<open>
  \<^verbatim>\<open>generateRandomBigInt(min, max)\<close>. The division \<^verbatim>\<open>value % range\<close> throws a
  \<^verbatim>\<open>RangeError\<close> when \<^verbatim>\<open>range\<close> is zero.
\<close>

definition generateRandomBigInt :: "int \<Rightarrow> int \<Rightarrow> buffer \<Rightarrow> error + int" where
  "generateRandomBigInt min' max' randomSource =
     (let range = max' - min';
          bytes = (length (BigInt_toString16 range) + 1) div 2;
          buffer = take bytes randomSource;
          value = BigInt_0x (Buffer_toString_hex buffer)
      in if range = 0 then Inl (Error ''Division by zero'')
         else Inr (js_rem value range + min'))"

text \<open>The results of a loop body that may throw: the first error ends the loop.\<close>

fun collect :: "(error + 'a) list \<Rightarrow> error + 'a list" where
  "collect [] = Inr []"
| "collect (Inl e # rs) = Inl e"
| "collect (Inr x # rs) = (case collect rs of Inl e \<Rightarrow> Inl e | Inr xs \<Rightarrow> Inr (x # xs))"

text \<open>
  \<^verbatim>\<open>generateLWESample(dimension, modulus, errorBound)\<close>. The error comes from
  \<^verbatim>\<open>generateDiscreteGaussianError(errorBound)\<close>, a floating-point Box-Muller transform of two
  random draws; its integer result \<open>gaussianError\<close> is an input here.
\<close>

definition generateLWESample ::
    "int \<Rightarrow> int \<Rightarrow> int \<Rightarrow> buffer list \<Rightarrow> int \<Rightarrow> buffer \<Rightarrow> error + (int list \<times> int)" where
  "generateLWESample dimension modulus errorBound aRandom gaussianError bRandom =
     (case collect (map (\<lambda>i. generateRandomBigInt 0 modulus (draw aRandom i)) [0..<nat dimension]) of
        Inl e \<Rightarrow> Inl e
      | Inr a \<Rightarrow>
          (case generateRandomBigInt 0 modulus bRandom of
             Inl e \<Rightarrow> Inl e
           | Inr r \<Rightarrow> Inr (a, js_rem (r + gaussianError) modulus)))"

section \<open>Proof values and parameter validation\<close>

text \<open>
  The interfaces of \<^verbatim>\<open>types/index.ts\<close>. A field holds \<open>None\<close> when the object has no value of
  the declared type there (the field is missing, \<^verbatim>\<open>undefined\<close>, or fails the \<^verbatim>\<open>instanceof\<close>
  test), so that a proof value of any shape can be written down. A JavaScript number is an
  integer here. The fields of \<^verbatim>\<open>ProofParameters\<close> carry the prefix \<open>p_\<close>.
\<close>

record ProofParameters =
  p_dimension :: "int option"
  p_modulus :: "int option"
  p_chainLength :: "int option"
  p_variables :: "int option"
  p_equations :: "int option"
  p_algorithms :: "string list option"
  p_weights :: "(string \<times> rat) list option"

definition noParameters :: ProofParameters where
  "noParameters = \<lparr>p_dimension = None, p_modulus = None, p_chainLength = None,
     p_variables = None, p_equations = None, p_algorithms = None, p_weights = None\<rparr>"

record BaseProof =
  type :: string
  commitment :: "buffer option"
  challenge :: "buffer option"
  response :: "buffer option"
  parameters :: ProofParameters
  quantumSafe :: bool
  timestamp :: int
  version :: string

record LatticeProof = BaseProof +
  dimension :: "int option"
  modulus :: "int option"
  polynomialCommitment :: "buffer option"

record HashProof = BaseProof +
  chainLength :: "int option"
  hashChain :: "buffer list option"
  commitmentChain :: "buffer option"
  merkleTree :: "buffer list list option"
  merkleProof :: "buffer list option"

record MultivariateProof = BaseProof +
  variables :: "int option"
  equations :: "int option"
  polynomialSystem :: "buffer option"
  solution :: "buffer option"

text \<open>
  An element of \<^verbatim>\<open>HybridProof.proofs\<close>: a proof of one of the three base engines, an object
  with another \<^verbatim>\<open>type\<close>, or \<^verbatim>\<open>null\<close>/\<^verbatim>\<open>undefined\<close>.
\<close>

datatype ComponentProof =
  LatticeComponent LatticeProof
| HashComponent HashProof
| MultivariateComponent MultivariateProof
| OtherComponent string
| NullComponent

record HybridProof = BaseProof +
  proofs :: "ComponentProof list option"
  combined :: "buffer option"
  algorithmWeights :: "(string \<times> rat) list option"

text \<open>The secret is a buffer or a text, turned into a buffer first.\<close>

datatype secret = SecretBuffer buffer | SecretString string

fun secretBuffer :: "secret \<Rightarrow> buffer" where
  "secretBuffer (SecretBuffer b) = b"
| "secretBuffer (SecretString s) = utf8 s"

text \<open>
  \<^verbatim>\<open>buffer.toString('utf8').includes('corrupted')\<close>. The nine characters are ASCII, and the
  UTF-8 decoder maps every ASCII byte to its character and every other byte sequence to
  other characters, so the text contains the word exactly when the bytes contain its nine
  bytes in a row.
\<close>

definition Buffer_includes :: "buffer \<Rightarrow> buffer \<Rightarrow> bool" where
  "Buffer_includes buf pat =
     list_ex (\<lambda>i. take (length pat) (drop i buf) = pat) [0..<Suc (length buf)]"

definition includesCorrupted :: "buffer \<Rightarrow> bool" where
  "includesCorrupted buf = Buffer_includes buf (utf8 ''corrupted'')"

text \<open>\<^verbatim>\<open>QuantumCrypto.validateParameters(algorithm, parameters)\<close> and its four helpers.\<close>

definition validateLatticeParameters :: "ProofParameters \<Rightarrow> bool" where
  "validateLatticeParameters ps =
     (case p_dimension ps of
        None \<Rightarrow> False
      | Some d \<Rightarrow>
          if d < 128 then False
          else (case p_modulus ps of None \<Rightarrow> False | Some m \<Rightarrow> if m \<le> 0 then False else True))"

definition validateHashParameters :: "ProofParameters \<Rightarrow> bool" where
  "validateHashParameters ps =
     (case p_chainLength ps of None \<Rightarrow> False | Some n \<Rightarrow> if n < 100 then False else True)"

definition validateMultivariateParameters :: "ProofParameters \<Rightarrow> bool" where
  "validateMultivariateParameters ps =
     (case p_variables ps of
        None \<Rightarrow> False
      | Some v \<Rightarrow>
          if v < 8 then False
          else (case p_equations ps of None \<Rightarrow> False | Some e \<Rightarrow> if e < v then False else True))"

definition validateHybridParameters :: "ProofParameters \<Rightarrow> bool" where
  "validateHybridParameters ps =
     (case p_algorithms ps of
        None \<Rightarrow> False
      | Some algs \<Rightarrow>
          if length algs < 2 then False
          else list_all (\<lambda>alg. alg \<in> set [''lattice'', ''hash'', ''multivariate'']) algs)"

definition validateParameters :: "string \<Rightarrow> ProofParameters \<Rightarrow> bool" where
  "validateParameters algorithm ps =
     (if algorithm = ''lattice'' then validateLatticeParameters ps
      else if algorithm = ''hash'' then validateHashParameters ps
      else if algorithm = ''multivariate'' then validateMultivariateParameters ps
      else if algorithm = ''hybrid'' then validateHybridParameters ps
      else False)"

section \<open>The hash-chain engine\<close>







section \<open>The lattice engine\<close>

text \<open>
  The random draws of one \<^verbatim>\<open>LatticeZKP.createProof\<close> call, in the order of the calls:
  the result of \<^verbatim>\<open>generateLargePrime(1024)\<close> (drawn only when no modulus is supplied), the
  bytes behind the coefficients \<open>a\<close> of the LWE sample, the error and the bytes behind the
  unused scalar of that sample, the witness, the Gaussian error of the commitment, and the
  bytes behind the coefficients of the polynomial commitment.
\<close>

record LatticeRandom =
  largePrime :: int
  aBytes :: "buffer list"
  sampleError :: int
  bBytes :: buffer
  witnessBytes :: buffer
  commitmentError :: int
  polynomialBytes :: "buffer list"

text \<open>\<^verbatim>\<open>LatticeZKP.createLWECommitment(a, secret, modulus)\<close>.\<close>

definition createLWECommitment :: "int list \<Rightarrow> buffer \<Rightarrow> int \<Rightarrow> int \<Rightarrow> buffer" where
  "createLWECommitment a secretBuf modulusValue gaussianError =
     (let secretInts = bufferToBigInts secretBuf (of_nat (length a));
          innerProduct =
            foldl (\<lambda>acc i. js_rem (acc + a ! i * secretInts ! i) modulusValue) 0 [0..<length a];
          commitmentValue = js_rem (innerProduct + gaussianError) modulusValue
      in bigIntsToBuffer [commitmentValue])"

text \<open>\<^verbatim>\<open>LatticeZKP.generateLWEChallenge(commitment, witness, a)\<close>.\<close>

definition generateLWEChallenge :: "buffer \<Rightarrow> buffer \<Rightarrow> int list \<Rightarrow> buffer" where
  "generateLWEChallenge commitmentValue witness a =
     hash (commitmentValue @ witness @ bigIntsToBuffer a)"

text \<open>\<^verbatim>\<open>LatticeZKP.createLWEResponse(secret, witness, challenge, a, modulus)\<close>.\<close>

definition createLWEResponse :: "buffer \<Rightarrow> buffer \<Rightarrow> buffer \<Rightarrow> int list \<Rightarrow> int \<Rightarrow> buffer" where
  "createLWEResponse secretBuf witness challengeValue a modulusValue =
     (let secretInts = bufferToBigInts secretBuf (of_nat (length a));
          challengeInt = BigInt_0x (Buffer_toString_hex challengeValue);
          weightedSecret = map (\<lambda>s. js_rem (s * challengeInt) modulusValue) secretInts;
          witnessInts = bufferToBigInts witness (of_nat (length a));
          responseInts =
            map (\<lambda>i. js_rem (weightedSecret ! i + witnessInts ! i) modulusValue)
              [0..<length weightedSecret]
      in bigIntsToBuffer responseInts)"

text \<open>
  \<^verbatim>\<open>LatticeZKP.createPolynomialCommitment(dimension)\<close>: the hash of \<open>dimension\<close> random
  coefficients below \<open>2\<^sup>6\<^sup>4\<close> (the range is not zero, so the draw does not throw).
\<close>

definition createPolynomialCommitment :: "int \<Rightarrow> buffer list \<Rightarrow> buffer" where
  "createPolynomialCommitment dimensionValue randomSource =
     (let coefficients =
            map (\<lambda>i. projr (generateRandomBigInt 0 (2 ^ 64) (draw randomSource i)))
              [0..<nat dimensionValue]
      in hash (bigIntsToBuffer coefficients))"

text \<open>
  \<^verbatim>\<open>LatticeZKP.createProof(secret, parameters)\<close>. \<^verbatim>\<open>parameters?.dimension || 256\<close> and
  \<^verbatim>\<open>parameters?.modulus || generateLargePrime(1024)\<close> take the default also for 0.
\<close>

definition LatticeZKP_createProof ::
    "secret \<Rightarrow> ProofParameters \<Rightarrow> LatticeRandom \<Rightarrow> int \<Rightarrow> error + LatticeProof" where
  "LatticeZKP_createProof secretValue params rnd now =
     (let dimensionValue =
            (case p_dimension params of None \<Rightarrow> 256 | Some d \<Rightarrow> if d = 0 then 256 else d);
          modulusValue =
            (case p_modulus params of
               None \<Rightarrow> largePrime rnd
             | Some m \<Rightarrow> if m = 0 then largePrime rnd else m);
          errorBound = 8
      in if \<not> validateParameters ''lattice''
              (noParameters\<lparr>p_dimension := Some dimensionValue, p_modulus := Some modulusValue\<rparr>)
         then Inl (Error ''Invalid lattice parameters'')
         else
           let secretBuf = secretBuffer secretValue
           in case generateLWESample dimensionValue modulusValue errorBound
                     (aBytes rnd) (sampleError rnd) (bBytes rnd) of
                Inl e \<Rightarrow> Inl e
              | Inr (a, b) \<Rightarrow>
                  let witness = witnessBytes rnd;
                      commitmentValue =
                        createLWECommitment a secretBuf modulusValue (commitmentError rnd);
                      challengeValue = generateLWEChallenge commitmentValue witness a;
                      responseValue =
                        createLWEResponse secretBuf witness challengeValue a modulusValue
                  in Inr \<lparr>type = ''lattice'',
                          commitment = Some commitmentValue,
                          challenge = Some challengeValue,
                          response = Some responseValue,
                          parameters = noParameters\<lparr>p_dimension := Some dimensionValue,
                                         p_modulus := Some modulusValue\<rparr>,
                          quantumSafe = True,
                          timestamp = now,
                          version = ''1.0.0'',
                          dimension = Some dimensionValue,
                          modulus = Some modulusValue,
                          polynomialCommitment =
                            Some (createPolynomialCommitment dimensionValue (polynomialBytes rnd))\<rparr>)"

text \<open>\<^verbatim>\<open>LatticeZKP.validateProofStructure\<close>.\<close>

definition LatticeZKP_validateProofStructure :: "LatticeProof \<Rightarrow> bool" where
  "LatticeZKP_validateProofStructure prf =
     (type prf = ''lattice'' \<and> commitment prf \<noteq> None \<and> challenge prf \<noteq> None
      \<and> response prf \<noteq> None \<and> polynomialCommitment prf \<noteq> None
      \<and> (case dimension prf of None \<Rightarrow> False | Some d \<Rightarrow> 0 < d)
      \<and> (case modulus prf of None \<Rightarrow> False | Some m \<Rightarrow> 0 < m))"

text \<open>
  \<^verbatim>\<open>LatticeZKP.verifyLWEEquation\<close>; the set of the decimal renderings of the response values
  has as many elements as there are distinct values.
\<close>

definition verifyLWEEquation :: "LatticeProof \<Rightarrow> bool" where
  "verifyLWEEquation prf =
     (if includesCorrupted (the (response prf)) then False
      else
        let commitmentInt = bufferToBigInts (the (commitment prf)) 1 ! 0;
            responseInts = bufferToBigInts (the (response prf)) (of_int (the (dimension prf)))
        in if int (length responseInts) \<noteq> the (dimension prf) then False
           else if list_ex (\<lambda>v. v < 0 \<or> the (modulus prf) \<le> v) responseInts then False
           else if commitmentInt < 0 \<or> the (modulus prf) \<le> commitmentInt then False
           else if \<not> list_ex (\<lambda>v. v \<noteq> 0) responseInts then False
           else if length (remdups responseInts) = 1 \<and> responseInts ! 0 = 0 then False
           else True)"

text \<open>\<^verbatim>\<open>LatticeZKP.verifyPolynomialCommitment\<close> and \<^verbatim>\<open>LatticeZKP.verifyZeroKnowledge\<close>.\<close>

definition verifyPolynomialCommitment :: "LatticeProof \<Rightarrow> bool" where
  "verifyPolynomialCommitment prf =
     (if polynomialCommitment prf = None \<or> length (the (polynomialCommitment prf)) = 0 then False
      else if length (the (polynomialCommitment prf)) \<noteq> 32 then False
      else True)"

definition verifyZeroKnowledge :: "buffer \<Rightarrow> buffer \<Rightarrow> bool" where
  "verifyZeroKnowledge responseValue challengeValue =
     (hash responseValue \<noteq> hash challengeValue)"

text \<open>
  \<^verbatim>\<open>LatticeZKP.verifyProof\<close>. With the fields the structure check guarantees, no statement
  of the \<^verbatim>\<open>try\<close> block throws.
\<close>

definition LatticeZKP_verifyProof :: "LatticeProof \<Rightarrow> bool" where
  "LatticeZKP_verifyProof prf =
     (if \<not> LatticeZKP_validateProofStructure prf then False
      else if response prf = None \<or> length (the (response prf)) = 0 then False
      else if challenge prf = None \<or> length (the (challenge prf)) \<noteq> 32 then False
      else if commitment prf = None \<or> length (the (commitment prf)) = 0 then False
      else
        let responseInts =
              bufferToBigInts (the (response prf))
                (min (of_nat (length (the (response prf))) / 8) 10);
            hasValidResponse = list_ex (\<lambda>v. v \<noteq> 0) responseInts
        in if \<not> hasValidResponse then False
           else
             let challengeInts = bufferToBigInts (the (challenge prf)) 4;
                 hasValidChallenge = list_ex (\<lambda>v. v \<noteq> 0) challengeInts
             in if \<not> hasValidChallenge then False
                else if includesCorrupted (the (response prf))
                        \<or> includesCorrupted (the (challenge prf))
                        \<or> includesCorrupted (the (commitment prf)) then False
                else if \<not> verifyLWEEquation prf then False
                else if \<not> verifyPolynomialCommitment prf then False
                else if \<not> verifyZeroKnowledge (the (response prf)) (the (challenge prf)) then False
                else True)"

section \<open>The multivariate engine: verification\<close>





section \<open>The hybrid engine: verification\<close>








section \<open>Example proof values\<close>





section \<open>Properties of the buffer and big-integer utilities\<close>

lemma hexDigitValue_hexDigit: "d < 16 \<Longrightarrow> hexDigitValue (hexDigit d) = Some d"
proof -
  assume "d < 16"
  then have "d \<in> set [0..<16]" by simp
  then show ?thesis
    by (simp add: upt_rec hexDigit_def hexDigitValue_def) (elim disjE; simp)
qed

lemma hexDigitValue_less: "hexDigitValue c = Some v \<Longrightarrow> v < 16"
  by (auto simp: hexDigitValue_def Let_def split: if_splits)

lemma be_val_Nil: "be_val [] = 0"
  by (simp add: be_val_def)

lemma be_val_snoc: "be_val (bs @ [b]) = 256 * be_val bs + uint b"
  by (simp add: be_val_def)

lemma BigInt_0x_snoc: "BigInt_0x (s @ [c]) = 16 * BigInt_0x s + int (the (hexDigitValue c))"
  by (simp add: BigInt_0x_def)

lemma toHex_snoc:
  "Buffer_toString_hex (bs @ [b]) = Buffer_toString_hex bs @ [hexDigit (unat b div 16)] @ [hexDigit (unat b mod 16)]"
  by (simp add: Buffer_toString_hex_def)

lemma length_toHex: "length (Buffer_toString_hex bs) = 2 * length bs"
  by (induction bs) (simp_all add: Buffer_toString_hex_def)

lemma unat_byte_div16: "unat (b :: byte) div 16 < 16"
proof -
  have "unat b < 256" using unsigned_less [of b, where ?'a = nat] by simp
  then show ?thesis by simp
qed

lemma BigInt_0x_toHex: "BigInt_0x (Buffer_toString_hex bs) = be_val bs"
proof (induction bs rule: rev_induct)
  case Nil
  show ?case by (simp add: BigInt_0x_def Buffer_toString_hex_def be_val_def)
next
  case (snoc b bs)
  have "16 * (16 * be_val bs + int (unat b div 16)) + int (unat b mod 16) = 256 * be_val bs + int (unat b)"
    by (simp add: zdiv_int zmod_int)
  then show ?case
    using snoc unat_byte_div16 [of b]
    by (simp only: toHex_snoc append_assoc [symmetric] BigInt_0x_snoc be_val_snoc)
       (simp add: hexDigitValue_hexDigit)
qed


lemma take_slice: "take (min (s + k) (length b) - s) (drop s b) = take k (drop s b)"
proof -
  have "min (s + k) (length b) - s = min k (length (drop s b))" by auto
  then show ?thesis by (simp add: min_def)
qed

lemma div_add_less: "(r::nat) < n \<Longrightarrow> (r + k * n) div n = k"
  by simp

lemma ceil_div_nat_aux:
  assumes "0 < (n::nat)"
  shows "(L + n - 1) div n = (if L mod n = 0 then L div n else L div n + 1)"
proof (cases "L mod n = 0")
  case True
  define r where "r = n - 1"
  have r: "r < n" using assms by (simp add: r_def)
  have "L + n - 1 = r + L div n * n" using True assms by (auto simp: r_def)
  then have "(L + n - 1) div n = (r + L div n * n) div n" by simp
  also have "\<dots> = L div n" using r by simp
  finally show ?thesis using True by simp
next
  case False
  define q m where "q = L div n" and "m = L mod n"
  have L: "L = q * n + m" and m: "0 < m" "m < n"
    using False assms by (simp_all add: q_def m_def)
  define r where "r = m - 1"
  have r: "r < n" using m by (simp add: r_def)
  have "L + n - 1 = r + (q + 1) * n" using L m by (simp add: algebra_simps r_def)
  then have "(L + n - 1) div n = (r + (q + 1) * n) div n" by simp
  also have "\<dots> = q + 1" using div_add_less [OF r, of "q + 1"] .
  finally show ?thesis using False by (simp add: q_def)
qed

lemma ceiling_div_nat:
  assumes "0 < n"
  shows "nat \<lceil>(of_nat L :: rat) / of_nat n\<rceil> = (L + n - 1) div n"
proof -
  have "\<lceil>(of_nat L :: rat) / of_nat n\<rceil> = \<lceil>(of_int (int L) :: rat) / of_int (int n)\<rceil>" by simp
  also have "\<dots> = - (- int L div int n)" by (rule ceiling_divide_eq_div)
  finally have c: "\<lceil>(of_nat L :: rat) / of_nat n\<rceil> = - (- int L div int n)" .
  have "- (- int L div int n) = (if int L mod int n = 0 then int L div int n else int L div int n + 1)"
    using assms by (simp add: zdiv_zminus1_eq_if)
  also have "\<dots> = int (if L mod n = 0 then L div n else L div n + 1)"
    using zdiv_int by force
  finally show ?thesis using c ceil_div_nat_aux [OF assms, of L] by simp
qed



lemma Buffer_slice_take_drop:
  "Buffer_slice b s (min (s + k) (length b)) = take k (drop s b)"
  by (simp only: Buffer_slice_def take_slice)

lemma slice_value:
  "(if length s = 0 then 0
    else BigInt_0x (padStart (Buffer_toString_hex s) (length s * 2) CHR ''0'')) = be_val s"
proof -
  have "padStart (Buffer_toString_hex s) (length s * 2) CHR ''0'' = Buffer_toString_hex s"
    by (simp add: padStart_def length_toHex)
  then show ?thesis
    by (simp only: BigInt_0x_toHex) (simp add: be_val_Nil)
qed

lemma bufferToBigInts_eq:
  "bufferToBigInts b c =
     map (\<lambda>i. be_val (take (nat \<lceil>of_nat (length b) / c\<rceil>)
                          (drop (i * nat \<lceil>of_nat (length b) / c\<rceil>) b)))
         [0..<nat \<lceil>c\<rceil>]"
  unfolding bufferToBigInts_def Let_def Buffer_slice_take_drop slice_value ..

lemma bufferToBigInts_nth:
  assumes "0 < n" and "i < n"
  shows "bufferToBigInts b (of_nat n) ! i =
         be_val (take ((length b + n - 1) div n) (drop (i * ((length b + n - 1) div n)) b))"
  using assms by (simp add: bufferToBigInts_eq ceiling_div_nat)

lemma length_bufferToBigInts: "length (bufferToBigInts b c) = nat \<lceil>c\<rceil>"
  by (simp add: bufferToBigInts_eq)

text \<open>
  Claim C10: for every buffer \<open>b\<close> (the empty one too) and every positive count \<open>n\<close>,
  \<^verbatim>\<open>bufferToBigInts(b, n)\<close> returns exactly \<open>n\<close> integers; the \<open>i\<close>-th is the big-endian value
  of the \<open>i\<close>-th slice of \<open>\<lceil>length b / n\<rceil>\<close> bytes, and a slice that starts at or after the end
  of \<open>b\<close> gives 0.
\<close>

theorem bufferToBigInts_slices:
  assumes "0 < n"
  shows "length (bufferToBigInts b (of_nat n)) = n
       \<and> (\<forall>i<n. bufferToBigInts b (of_nat n) ! i =
              be_val (take ((length b + n - 1) div n) (drop (i * ((length b + n - 1) div n)) b)))
       \<and> (\<forall>i<n. length b \<le> i * ((length b + n - 1) div n) \<longrightarrow>
              bufferToBigInts b (of_nat n) ! i = 0)"
proof (intro conjI allI impI)
  show "length (bufferToBigInts b (of_nat n)) = n"
    by (simp add: length_bufferToBigInts)
next
  fix i assume "i < n"
  with assms show "bufferToBigInts b (of_nat n) ! i =
              be_val (take ((length b + n - 1) div n) (drop (i * ((length b + n - 1) div n)) b))"
    by (rule bufferToBigInts_nth)
next
  fix i assume "i < n" and "length b \<le> i * ((length b + n - 1) div n)"
  then show "bufferToBigInts b (of_nat n) ! i = 0"
    using assms by (simp add: bufferToBigInts_nth be_val_Nil)
qed

theorem bufferToBigInts_slices_witness:
  "(0 :: nat) < 4
   \<and> length (bufferToBigInts [1, 2, 3, 4, 5] (of_nat 4)) = 4
   \<and> bufferToBigInts [1, 2, 3, 4, 5] (of_nat 4) ! 1 = 772
   \<and> bufferToBigInts [1, 2, 3, 4, 5] (of_nat 4) ! 3 = 0"
  using bufferToBigInts_slices [of 4 "[1, 2, 3, 4, 5]"]
  by (simp add: be_val_def)

lemma hexDigitValue_hexDigit_the: "d < 16 \<Longrightarrow> the (hexDigitValue (hexDigit d)) = d"
  by (simp add: hexDigitValue_hexDigit)

lemma nat_toString16_valid: "c \<in> set (nat_toString16 n) \<Longrightarrow> hexDigitValue c \<noteq> None"
proof (induction n rule: nat_toString16.induct)
  case (1 n)
  show ?case
  proof (cases "n < 16")
    case True
    with 1(2) show ?thesis
      by (subst (asm) nat_toString16.simps) (simp add: hexDigitValue_hexDigit)
  next
    case False
    have "n mod 16 < 16" by simp
    with False 1 show ?thesis
      by (subst (asm) (2) nat_toString16.simps) (auto simp: hexDigitValue_hexDigit)
  qed
qed

lemma BigInt_0x_nat_toString16: "BigInt_0x (nat_toString16 n) = int n"
proof (induction n rule: nat_toString16.induct)
  case (1 n)
  show ?case
  proof (cases "n < 16")
    case True
    then show ?thesis
      by (subst nat_toString16.simps) (simp add: BigInt_0x_def hexDigitValue_hexDigit)
  next
    case False
    have m: "n mod 16 < 16" by simp
    have "BigInt_0x (nat_toString16 n) = 16 * BigInt_0x (nat_toString16 (n div 16)) + int (n mod 16)"
      using False by (subst nat_toString16.simps) (simp add: BigInt_0x_snoc hexDigitValue_hexDigit)
    also have "\<dots> = 16 * int (n div 16) + int (n mod 16)"
      using 1 False by simp
    also have "\<dots> = int n" by (simp add: zdiv_int zmod_int)
    finally show ?thesis .
  qed
qed

lemma length_nat_toString16: "0 < length (nat_toString16 n)"
  by (subst nat_toString16.simps) simp

lemma uint_byte_of_nat: "n < 256 \<Longrightarrow> uint (word_of_nat n :: byte) = int n"
  by (simp add: unsigned_of_nat take_bit_nat_eq_self)

lemma foldl_Buffer_from_hex:
  "\<forall>c\<in>set s. hexDigitValue c \<noteq> None \<Longrightarrow> even (length s) \<Longrightarrow>
   foldl (\<lambda>acc b. 256 * acc + uint b) a (Buffer_from_hex s) =
   foldl (\<lambda>acc c. 16 * acc + int (the (hexDigitValue c))) a s"
proof (induction s arbitrary: a rule: Buffer_from_hex.induct)
  case (1 c1 c2 cs)
  from 1(2) obtain h l where hl: "hexDigitValue c1 = Some h" "hexDigitValue c2 = Some l"
    by auto
  then have "h < 16" "l < 16" by (auto dest: hexDigitValue_less)
  then have "16 * h + l < 256" by simp
  then have u: "uint (16 * word_of_nat h + word_of_nat l :: byte) = 16 * int h + int l"
    using uint_byte_of_nat [of "16 * h + l"] by simp
  have "foldl (\<lambda>acc b. 256 * acc + uint b) (256 * a + (16 * int h + int l)) (Buffer_from_hex cs) =
        foldl (\<lambda>acc c. 16 * acc + int (the (hexDigitValue c))) (256 * a + (16 * int h + int l)) cs"
    using 1 hl by simp
  then show ?case using hl u by (simp add: add.assoc)
qed simp_all

lemma be_val_Buffer_from_hex:
  "\<forall>c\<in>set s. hexDigitValue c \<noteq> None \<Longrightarrow> even (length s) \<Longrightarrow>
   be_val (Buffer_from_hex s) = BigInt_0x s"
  unfolding be_val_def BigInt_0x_def by (rule foldl_Buffer_from_hex)

lemma padStart_even:
  "padStart hex (length hex + length hex mod 2) CHR ''0'' =
     (if even (length hex) then hex else CHR ''0'' # hex)"
  by (auto simp: padStart_def odd_iff_mod_2_eq_one)

lemma BigInt_0x_zero_Cons: "BigInt_0x (CHR ''0'' # s) = BigInt_0x s"
  by (simp add: BigInt_0x_def hexDigitValue_def)

lemma hexDigitValue_zero: "hexDigitValue CHR ''0'' = Some 0"
  by (simp add: hexDigitValue_def)

lemma be_val_bigIntToBuffer:
  assumes "0 \<le> v"
  shows "be_val (bigIntToBuffer v) = v"
proof -
  let ?hex = "nat_toString16 (nat v)"
  let ?p = "if even (length ?hex) then ?hex else CHR ''0'' # ?hex"
  have b: "bigIntToBuffer v = Buffer_from_hex ?p"
    using assms by (simp add: bigIntToBuffer_def BigInt_toString16_def Let_def padStart_even)
  have valid: "\<forall>c\<in>set ?p. hexDigitValue c \<noteq> None"
    by (auto simp: hexDigitValue_zero dest: nat_toString16_valid)
  have ev: "even (length ?p)" by simp
  have "be_val (bigIntToBuffer v) = BigInt_0x ?p"
    unfolding b by (rule be_val_Buffer_from_hex [OF valid ev])
  also have "\<dots> = BigInt_0x ?hex" by (simp add: BigInt_0x_zero_Cons)
  also have "\<dots> = v" using assms by (simp add: BigInt_0x_nat_toString16)
  finally show ?thesis .
qed

lemma hexDigitValue_minus: "hexDigitValue CHR ''-'' = None"
  by (simp add: hexDigitValue_def)

lemma bigIntToBuffer_negative:
  assumes "v < 0"
  shows "bigIntToBuffer v = []"
proof -
  let ?d = "nat_toString16 (nat (- v))"
  obtain c cs where d: "?d = c # cs"
    using length_nat_toString16 [of "nat (- v)"] by (cases ?d) auto
  show ?thesis
    using assms
    by (simp add: bigIntToBuffer_def BigInt_toString16_def Let_def padStart_even d hexDigitValue_minus
        split: option.splits)
qed

lemma be_val_nonneg: "0 \<le> be_val bs"
proof (induction bs rule: rev_induct)
  case Nil
  show ?case by (simp add: be_val_Nil)
next
  case (snoc b bs)
  then show ?case by (simp add: be_val_snoc)
qed

lemma bufferToBigInts_nonneg: "v \<in> set (bufferToBigInts b c) \<Longrightarrow> 0 \<le> v"
  by (auto simp: bufferToBigInts_eq be_val_nonneg)

text \<open>
  Claim C7: for a non-empty buffer \<open>b\<close> and a positive integer \<open>n \<le> length b\<close>,
  \<^verbatim>\<open>bigIntsToBuffer(bufferToBigInts(b, n))\<close> is the concatenation of \<open>n\<close> segments, and the
  \<open>i\<close>-th segment denotes the same big-endian integer as the \<open>i\<close>-th slice of \<open>b\<close> (so the
  two differ at most in leading zero bytes).
\<close>

theorem bigIntsToBuffer_bufferToBigInts:
  assumes "b \<noteq> []" and "0 < n" and "n \<le> length b"
  shows "\<exists>segs. length segs = n
           \<and> bigIntsToBuffer (bufferToBigInts b (of_nat n)) = concat segs
           \<and> (\<forall>i<n. be_val (segs ! i) =
                  be_val (take ((length b + n - 1) div n) (drop (i * ((length b + n - 1) div n)) b)))"
proof (intro exI conjI allI impI)
  let ?ints = "bufferToBigInts b (of_nat n)"
  show "length (map bigIntToBuffer ?ints) = n"
    by (simp add: length_bufferToBigInts)
  show "bigIntsToBuffer ?ints = concat (map bigIntToBuffer ?ints)"
    by (simp add: bigIntsToBuffer_def)
  fix i assume i: "i < n"
  then have "?ints ! i \<in> set ?ints" by (simp add: length_bufferToBigInts)
  then have "0 \<le> ?ints ! i" by (rule bufferToBigInts_nonneg)
  then have "be_val (bigIntToBuffer (?ints ! i)) = ?ints ! i" by (rule be_val_bigIntToBuffer)
  then show "be_val (map bigIntToBuffer ?ints ! i) =
       be_val (take ((length b + n - 1) div n) (drop (i * ((length b + n - 1) div n)) b))"
    using i assms(2) by (simp add: length_bufferToBigInts bufferToBigInts_nth)
qed

theorem bigIntsToBuffer_bufferToBigInts_witness:
  "[0, 2, 3, 4, 0, 6, 0, 0] \<noteq> ([] :: buffer) \<and> (0 :: nat) < 3 \<and> 3 \<le> length [0, 2, 3, 4, 0, 6, 0, 0 :: byte]
   \<and> (\<exists>segs. length segs = 3
         \<and> bigIntsToBuffer (bufferToBigInts [0, 2, 3, 4, 0, 6, 0, 0] (of_nat 3)) = concat segs
         \<and> be_val (segs ! 0) = be_val [0, 2, 3]
         \<and> be_val (segs ! 1) = be_val [4, 0, 6]
         \<and> be_val (segs ! 2) = be_val [0, 0])"
proof -
  have "\<exists>segs. length segs = 3
           \<and> bigIntsToBuffer (bufferToBigInts [0, 2, 3, 4, 0, 6, 0, 0] (of_nat 3)) = concat segs
           \<and> (\<forall>i<3. be_val (segs ! i) = be_val (take 3 (drop (i * 3) [0, 2, 3, 4, 0, 6, 0, 0])))"
    using bigIntsToBuffer_bufferToBigInts [of "[0, 2, 3, 4, 0, 6, 0, 0]" 3] by simp
  then obtain segs where s: "length segs = 3"
      "bigIntsToBuffer (bufferToBigInts [0, 2, 3, 4, 0, 6, 0, 0] (of_nat 3)) = concat segs"
      "\<forall>i<3. be_val (segs ! i) = be_val (take 3 (drop (i * 3) [0, 2, 3, 4, 0, 6, 0, 0]))"
    by blast
  from s(3) have "be_val (segs ! 0) = be_val [0, 2, 3]" "be_val (segs ! 1) = be_val [4, 0, 6]"
      "be_val (segs ! 2) = be_val [0, 0]"
    by (simp, simp, fastforce)
  with s(1,2) show ?thesis by auto
qed

section \<open>Evaluating and measuring SHA-256\<close>

lemma nat_bits_numeral:
  "nat_bits (numeral k) x = odd x # nat_bits (pred_numeral k) (x div 2)"
  by (simp add: numeral_eq_Suc nat_bits.simps)

lemma chunks_numeral:
  "chunks (numeral k) xs = take 64 xs # chunks (pred_numeral k) (drop 64 xs)"
  by (simp add: numeral_eq_Suc)

lemma nat_bits_Bit0: "nat_bits (numeral c) (numeral (Num.Bit0 k)) = False # nat_bits (pred_numeral c) (numeral k)"
  by (simp add: nat_bits_numeral)
lemma nat_bits_Bit1: "nat_bits (numeral c) (numeral (Num.Bit1 k)) = True # nat_bits (pred_numeral c) (numeral k)"
  by (simp add: nat_bits_numeral)
lemma nat_bits_One: "nat_bits (numeral c) (numeral Num.One) = True # nat_bits (pred_numeral c) 0"
  by (simp add: nat_bits_numeral)
lemma nat_bits_zero: "nat_bits (numeral c) 0 = False # nat_bits (pred_numeral c) 0"
  by (simp add: nat_bits_numeral)
lemma replicate_num: "replicate (numeral k) x = x # replicate (pred_numeral k) x"
  by (simp add: numeral_eq_Suc)
lemma drop_num: "drop (numeral k) (x # xs) = drop (pred_numeral k) xs"
  by (simp add: numeral_eq_Suc)
lemma take_num: "take (numeral k) (x # xs) = x # take (pred_numeral k) xs"
  by (simp add: numeral_eq_Suc)
lemma nth_num: "(x # xs) ! (numeral k) = xs ! (pred_numeral k)"
  by (simp add: numeral_eq_Suc)
lemma nth_1: "(x # xs) ! 1 = xs ! 0" by simp
lemma drop_Nil_num: "drop n [] = []" by simp
lemma take_Nil_num: "take n [] = []" by simp

lemmas sha_eval = sha_digest_def sha_compress_def word_bytes_def next_w_def T1_def T2_def
  ssig0_def ssig1_def bsig0_def bsig1_def Ch_def Maj_def shr_def rotr_def add32_def K256_def H256_def
  sha_step.simps sha_shift.simps sha_rounds.simps bxor.simps band.simps bnot.simps badd.simps
  block_words.simps add_words.simps nat_bits.simps(1)
  nat_bits_Bit0 nat_bits_Bit1 nat_bits_One nat_bits_zero
  replicate_num drop_num take_num nth_num nth_1 drop_Nil_num take_Nil_num
  drop_0 take_0 replicate_0 nth_Cons_0 pred_numeral_simps Num.BitM.simps
  list.map foldl.simps concat.simps append.simps list.sel
  simp_thms not_True_eq_False not_False_eq_True


text \<open>
  Three rule sets evaluate \<open>sha256\<close> on a concrete message: \<open>sha_input\<close> pads the message
  and turns its bytes into bits, \<open>sha_eval\<close> runs the compression function, and
  \<open>sha_output\<close> turns the state back into bytes.
\<close>

lemmas sha_input = sha256_def sha_pad_def len_bytes_def byte_bits_def nat_bits.simps nat_bits_numeral
  chunks_numeral replicate_num

lemmas sha_output = bits_byte_def bits_nat.simps

text \<open>The model agrees with the FIPS 180-4 test vector for the message \<^verbatim>\<open>abc\<close>.\<close>

lemma sha256_abc:
  "sha256 [0x61, 0x62, 0x63] =
     [0xba, 0x78, 0x16, 0xbf, 0x8f, 0x01, 0xcf, 0xea, 0x41, 0x41, 0x40, 0xde, 0x5d, 0xae, 0x22, 0x23,
      0xb0, 0x03, 0x61, 0xa3, 0x96, 0x17, 0x7a, 0x9c, 0xb4, 0x10, 0xff, 0x61, 0xf2, 0x00, 0x15, 0xad]"
  apply (simp add: sha_input)
  apply (simp only: sha_eval)
  apply (simp add: sha_output)
  done

text \<open>A digest has 32 bytes, whatever the message.\<close>

lemma length_sha_shift: "length (sha_shift t1 t2 s) = length s"
  by (induction t1 t2 s rule: sha_shift.induct) simp_all

lemma length_sha_step: "length (sha_step k w s) = length s"
  by (induction k w s rule: sha_step.induct) (simp_all add: length_sha_shift)

lemma length_sha_rounds: "length (sha_rounds ks w s) = length s"
  by (induction ks arbitrary: w s) (simp_all add: length_sha_step)

lemma length_add_words: "length (add_words xs ys) = min (length xs) (length ys)"
  by (induction xs ys rule: add_words.induct) simp_all

lemma length_sha_compress: "length (sha_compress s blk) = length s"
  by (simp add: sha_compress_def length_add_words length_sha_rounds)

lemma length_foldl_sha_compress: "length (foldl sha_compress s blocks) = length s"
  by (induction blocks arbitrary: s) (simp_all add: length_sha_compress)

lemma length_concat_word_bytes: "length (concat (map word_bytes st)) = 4 * length st"
  by (induction st) (simp_all add: word_bytes_def)

lemma length_sha256: "length (sha256 m) = 32"
  by (simp add: sha256_def sha_digest_def length_concat_word_bytes length_foldl_sha_compress H256_def)

lemma length_hash: "length (hash data) = 32"
  by (simp add: hash_def length_sha256)

lemma length_hmac: "length (hmac data key) = 32"
  by (simp add: hmac_def Let_def length_sha256)

section \<open>Hash chains\<close>

lemma verifyHashChain_loop_iff:
  "verifyHashChain_loop c i \<longleftrightarrow> (\<forall>j. i \<le> j \<and> j < length c \<longrightarrow> c ! j = hash (c ! (j - 1)))"
proof (induction c i rule: verifyHashChain_loop.induct)
  case (1 c i)
  show ?case
  proof (cases "i < length c")
    case False
    then have "verifyHashChain_loop c i" by (subst verifyHashChain_loop.simps) simp
    moreover have "\<forall>j. i \<le> j \<and> j < length c \<longrightarrow> c ! j = hash (c ! (j - 1))"
      using False by auto
    ultimately show ?thesis by simp
  next
    case True
    show ?thesis
    proof (cases "hash (c ! (i - 1)) = c ! i")
      case False
      with True show ?thesis
        by (subst verifyHashChain_loop.simps) (auto simp: Let_def)
    next
      case eq: True
      have "verifyHashChain_loop c i = verifyHashChain_loop c (i + 1)"
        using True eq by (subst verifyHashChain_loop.simps) (simp add: Let_def)
      also have "\<dots> \<longleftrightarrow> (\<forall>j. i + 1 \<le> j \<and> j < length c \<longrightarrow> c ! j = hash (c ! (j - 1)))"
        using 1 True eq by simp
      also have "\<dots> \<longleftrightarrow> (\<forall>j. i \<le> j \<and> j < length c \<longrightarrow> c ! j = hash (c ! (j - 1)))"
      proof
        assume a: "\<forall>j. i + 1 \<le> j \<and> j < length c \<longrightarrow> c ! j = hash (c ! (j - 1))"
        show "\<forall>j. i \<le> j \<and> j < length c \<longrightarrow> c ! j = hash (c ! (j - 1))"
        proof (intro allI impI)
          fix j assume j: "i \<le> j \<and> j < length c"
          show "c ! j = hash (c ! (j - 1))"
          proof (cases "j = i")
            case True
            then show ?thesis using eq by simp
          next
            case False
            with j a show ?thesis by simp
          qed
        qed
      next
        assume "\<forall>j. i \<le> j \<and> j < length c \<longrightarrow> c ! j = hash (c ! (j - 1))"
        then show "\<forall>j. i + 1 \<le> j \<and> j < length c \<longrightarrow> c ! j = hash (c ! (j - 1))" by simp
      qed
      finally show ?thesis .
    qed
  qed
qed

lemma verifyHashChain_iff:
  "verifyHashChain c \<longleftrightarrow>
     2 \<le> length c \<and> (\<forall>i. 1 \<le> i \<and> i < length c \<longrightarrow> c ! i = hash (c ! (i - 1)))"
  by (simp add: verifyHashChain_def verifyHashChain_loop_iff) 

text \<open>
  Claim C4: \<^verbatim>\<open>verifyHashChain\<close> accepts a list \<open>c\<close> of byte strings if and only if \<open>c\<close> has at
  least two elements and \<open>c[i] = sha256(c[i-1])\<close> for every index \<open>i \<ge> 1\<close>; and an accepted
  chain in which one element after the first is replaced by a different byte string is
  rejected.
\<close>

theorem verifyHashChain_correct:
  "(verifyHashChain c \<longleftrightarrow>
      2 \<le> length c \<and> (\<forall>i. 1 \<le> i \<and> i < length c \<longrightarrow> c ! i = hash (c ! (i - 1))))
   \<and> (verifyHashChain c \<and> 1 \<le> k \<and> k < length c \<and> x \<noteq> c ! k \<longrightarrow> \<not> verifyHashChain (c[k := x]))"
proof (intro conjI impI)
  show "verifyHashChain c \<longleftrightarrow>
      2 \<le> length c \<and> (\<forall>i. 1 \<le> i \<and> i < length c \<longrightarrow> c ! i = hash (c ! (i - 1)))"
    by (rule verifyHashChain_iff)
next
  assume "verifyHashChain c \<and> 1 \<le> k \<and> k < length c \<and> x \<noteq> c ! k"
  then have v: "verifyHashChain c" and k: "1 \<le> k" "k < length c" and x: "x \<noteq> c ! k"
    by simp_all
  from v k have link: "c ! k = hash (c ! (k - 1))" by (simp add: verifyHashChain_iff)
  show "\<not> verifyHashChain (c[k := x])"
  proof
    assume "verifyHashChain (c[k := x])"
    then have "\<forall>i. 1 \<le> i \<and> i < length (c[k := x]) \<longrightarrow> c[k := x] ! i = hash (c[k := x] ! (i - 1))"
      unfolding verifyHashChain_iff by (rule conjunct2)
    then have "1 \<le> k \<and> k < length (c[k := x]) \<longrightarrow> c[k := x] ! k = hash (c[k := x] ! (k - 1))"
      by (rule spec)
    then have "c[k := x] ! k = hash (c[k := x] ! (k - 1))"
      using k by simp
    moreover have "c[k := x] ! k = x" using k by simp
    moreover have "c[k := x] ! (k - 1) = c ! (k - 1)" using k by simp
    ultimately show False using link x by simp
  qed
qed

theorem verifyHashChain_correct_witness:
  "verifyHashChain [hash [1], hash (hash [1]), hash (hash (hash [1]))]
   \<and> \<not> verifyHashChain [hash [1], [7], hash (hash (hash [1]))]
   \<and> \<not> verifyHashChain [hash [1]]"
proof -
  let ?c = "[hash [1], hash (hash [1]), hash (hash (hash [1]))]"
  have v: "verifyHashChain ?c"
    using verifyHashChain_correct [of ?c 1 "[7]"] by (simp add: less_Suc_eq nth_Cons')
  have ne: "[7] \<noteq> hash (hash [1])"
  proof
    assume "[7] = hash (hash [1])"
    then have "length [7 :: byte] = length (hash (hash [1]))" by simp
    then show False by (simp add: length_hash)
  qed
  have "\<not> verifyHashChain (?c[1 := [7]])"
    using verifyHashChain_correct [of ?c 1 "[7]"] v ne by simp
  moreover have "\<not> verifyHashChain [hash [1]]"
    using verifyHashChain_correct [of "[hash [1]]" 1 "[7]"] by simp
  ultimately show ?thesis using v by simp
qed

section \<open>Combining hashes\<close>

lemma combineHashes_Nil: "combineHashes [] = Inl (Error ''Cannot combine empty hash array'')"
  by (simp add: combineHashes_def)

lemma combineHashes_Cons:
  "combineHashes (h # hs) = Inr (foldl (\<lambda>acc x. hash (acc @ x)) h hs)"
  by (cases hs) (simp_all add: combineHashes_def)

lemma sha256_hash1_hash2:
  "sha256 (utf8 ''hash1'' @ utf8 ''hash2'') =
     [0xd8, 0xea, 0xb8, 0x00, 0x0c, 0x58, 0x26, 0xfb, 0xf2, 0x1e, 0x63, 0x40, 0xc9, 0x6a, 0x91, 0x1c,
      0x7c, 0xf3, 0x62, 0xc0, 0x54, 0x69, 0x5b, 0x73, 0xcb, 0x1a, 0x80, 0xad, 0x0d, 0xac, 0x1c, 0xb0]"
  apply (simp add: utf8_def sha_input)
  apply (simp only: sha_eval)
  apply (simp add: sha_output)
  done

lemma sha256_hash2_hash1:
  "sha256 (utf8 ''hash2'' @ utf8 ''hash1'') =
     [0x84, 0x0e, 0x07, 0x53, 0x89, 0xde, 0x25, 0xf1, 0x82, 0xd8, 0x90, 0xce, 0xf8, 0xe0, 0x8f, 0x6a,
      0xcf, 0xb7, 0xf6, 0xc5, 0x2f, 0x65, 0xd8, 0xd2, 0x84, 0x71, 0x63, 0x5e, 0xd1, 0xca, 0x55, 0x24]"
  apply (simp add: utf8_def sha_input)
  apply (simp only: sha_eval)
  apply (simp add: sha_output)
  done

text \<open>
  Claim C8 says that \<^verbatim>\<open>combineHashes\<close> gives the same digest for every permutation of its
  input. It does not: the two orders of the buffers \<^verbatim>\<open>hash1\<close> and \<^verbatim>\<open>hash2\<close> give the digests
  \<^verbatim>\<open>d8eab800...\<close> and \<^verbatim>\<open>840e0753...\<close>.
\<close>

theorem combineHashes_not_commutative:
  "combineHashes [utf8 ''hash1'', utf8 ''hash2''] \<noteq> combineHashes [utf8 ''hash2'', utf8 ''hash1'']"
  by (simp add: combineHashes_Cons hash_def sha256_hash1_hash2 sha256_hash2_hash1)

text \<open>
  Claim C8, amended: \<^verbatim>\<open>combineHashes\<close> is a left fold in the order of the list. It fails
  with an error exactly when the list is empty, returns the element of a one-element list
  unchanged, and combining a non-empty list followed by one more hash \<open>h\<close> gives
  \<open>sha256 (acc \<parallel> h)\<close>, where \<open>acc\<close> is the combination of the list.
\<close>

theorem combineHashes_left_fold:
  "(isl (combineHashes hashes) \<longleftrightarrow> hashes = [])
   \<and> combineHashes [h] = Inr h
   \<and> (hashes \<noteq> [] \<longrightarrow>
        combineHashes (hashes @ [h]) = Inr (hash (projr (combineHashes hashes) @ h)))"
proof (intro conjI impI)
  show "isl (combineHashes hashes) \<longleftrightarrow> hashes = []"
    by (cases hashes) (simp_all add: combineHashes_Nil combineHashes_Cons)
  show "combineHashes [h] = Inr h"
    by (simp add: combineHashes_Cons)
  assume "hashes \<noteq> []"
  then obtain x xs where "hashes = x # xs" by (cases hashes) auto
  then show "combineHashes (hashes @ [h]) = Inr (hash (projr (combineHashes hashes) @ h))"
    by (simp add: combineHashes_Cons)
qed

theorem combineHashes_left_fold_witness:
  "[[1], [2 :: byte]] \<noteq> []
   \<and> combineHashes ([[1], [2]] @ [[3]]) = Inr (hash (hash ([1] @ [2]) @ [3]))
   \<and> isl (combineHashes [])"
  using combineHashes_left_fold [of "[[1], [2]]" "[3]"] combineHashes_left_fold [of "[]" "[3]"]
  by (simp add: combineHashes_Cons)

section \<open>Merkle trees\<close>





text \<open>The four digests met when the third of three leaves is proved and verified.\<close>

lemma hash_leaf1_leaf2:
  "hash (utf8 ''leaf1'' @ utf8 ''leaf2'') =
     [0xa1, 0x21, 0xee, 0x34, 0x0f, 0xf5, 0x48, 0x3d, 0x03, 0xd2, 0x8c, 0xa4, 0x8a, 0x96, 0x14, 0x39,
      0x82, 0x6c, 0x4b, 0x77, 0xbd, 0x91, 0x36, 0xb7, 0xa2, 0xeb, 0x0a, 0x2b, 0xd2, 0x05, 0x4d, 0x2f]"
  apply (simp add: hash_def utf8_def sha_input)
  apply (simp only: sha_eval)
  apply (simp add: sha_output)
  done

lemma hash_leaf3_leaf3:
  "hash (utf8 ''leaf3'' @ utf8 ''leaf3'') =
     [0x04, 0xb1, 0xec, 0x90, 0x72, 0xea, 0xf0, 0xb7, 0x9c, 0x2f, 0x3c, 0x25, 0xb3, 0x89, 0x47, 0x6c,
      0x6b, 0xd2, 0x07, 0x15, 0xd2, 0xe7, 0x9e, 0xd6, 0x35, 0x3a, 0x8e, 0xdd, 0x1a, 0xdb, 0x6f, 0x79]"
  apply (simp add: hash_def utf8_def sha_input)
  apply (simp only: sha_eval)
  apply (simp add: sha_output)
  done

lemma hash_three_leaves_root:
  "hash
     [0xa1, 0x21, 0xee, 0x34, 0x0f, 0xf5, 0x48, 0x3d, 0x03, 0xd2, 0x8c, 0xa4, 0x8a, 0x96, 0x14, 0x39,
      0x82, 0x6c, 0x4b, 0x77, 0xbd, 0x91, 0x36, 0xb7, 0xa2, 0xeb, 0x0a, 0x2b, 0xd2, 0x05, 0x4d, 0x2f,
      0x04, 0xb1, 0xec, 0x90, 0x72, 0xea, 0xf0, 0xb7, 0x9c, 0x2f, 0x3c, 0x25, 0xb3, 0x89, 0x47, 0x6c,
      0x6b, 0xd2, 0x07, 0x15, 0xd2, 0xe7, 0x9e, 0xd6, 0x35, 0x3a, 0x8e, 0xdd, 0x1a, 0xdb, 0x6f, 0x79] =
     [0x38, 0xc4, 0x47, 0x40, 0x41, 0xbc, 0x71, 0x73, 0x7a, 0x91, 0x55, 0xbc, 0x9d, 0x7e, 0x8f, 0x61,
      0xfe, 0x49, 0xca, 0x81, 0x66, 0x76, 0xf6, 0x68, 0x6b, 0x29, 0x4e, 0x1b, 0x51, 0xe5, 0xa4, 0x0e]"
  apply (simp add: hash_def sha_input)
  apply (simp only: sha_eval)
  apply (simp add: sha_output)
  done

lemma hash_leaf3_sibling:
  "hash (utf8 ''leaf3'' @
     [0xa1, 0x21, 0xee, 0x34, 0x0f, 0xf5, 0x48, 0x3d, 0x03, 0xd2, 0x8c, 0xa4, 0x8a, 0x96, 0x14, 0x39,
      0x82, 0x6c, 0x4b, 0x77, 0xbd, 0x91, 0x36, 0xb7, 0xa2, 0xeb, 0x0a, 0x2b, 0xd2, 0x05, 0x4d, 0x2f]) =
     [0x0a, 0xcd, 0x0c, 0xd8, 0x1e, 0x9b, 0x05, 0x6a, 0x4a, 0x5d, 0x30, 0xe4, 0x8c, 0xca, 0xa6, 0xe7,
      0xfe, 0x88, 0x09, 0x62, 0x0f, 0xe4, 0xe8, 0xe4, 0xe5, 0xf2, 0x08, 0xa8, 0xe9, 0x55, 0xec, 0x85]"
  apply (simp add: hash_def utf8_def sha_input)
  apply (simp only: sha_eval)
  apply (simp add: sha_output)
  done

text \<open>
  Claim C5 says that the proof built for a valid leaf index verifies for the leaf at that
  index. The tree builder pairs the last node of an odd level with itself, but the proof
  builder pushes no sibling for it, so for the leaves \<^verbatim>\<open>leaf1\<close>, \<^verbatim>\<open>leaf2\<close>, \<^verbatim>\<open>leaf3\<close> and index 2
  the verifier computes \<open>sha256 (leaf3 \<parallel> h\<^sub>1\<^sub>2)\<close>, which is not the root
  \<open>sha256 (h\<^sub>1\<^sub>2 \<parallel> sha256 (leaf3 \<parallel> leaf3))\<close>: the proof of a genuine leaf is rejected.
\<close>

theorem verifyMerkleProof_rejects_unpaired_leaf:
  "(case generateMerkleTree [utf8 ''leaf1'', utf8 ''leaf2'', utf8 ''leaf3''] of
      Inl e \<Rightarrow> False
    | Inr (tree, rootHash) \<Rightarrow>
        generateMerkleProof tree 2 = [hash (utf8 ''leaf1'' @ utf8 ''leaf2'')]
        \<and> verifyMerkleProof (utf8 ''leaf3'') (generateMerkleProof tree 2) rootHash 2 = False)"
  by (simp add: generateMerkleTree_def merkleLevels.simps generateMerkleProof_def
      verifyMerkleProof_def Let_def hash_leaf1_leaf2 hash_leaf3_leaf3 hash_three_leaves_root
      hash_leaf3_sibling)

section \<open>LWE samples\<close>

lemma js_rem_nonneg: "0 \<le> a \<Longrightarrow> 0 < b \<Longrightarrow> 0 \<le> js_rem a b \<and> js_rem a b < b"
  by (simp add: js_rem_def sgn_if)

lemma BigInt_0x_nonneg: "0 \<le> BigInt_0x (Buffer_toString_hex buf)"
  by (simp add: BigInt_0x_toHex be_val_nonneg)

lemma generateRandomBigInt_range:
  assumes "min' < max'"
  shows "\<exists>v. generateRandomBigInt min' max' randomSource = Inr v \<and> min' \<le> v \<and> v < max'"
proof -
  let ?drawn = "BigInt_0x (Buffer_toString_hex
      (take ((length (BigInt_toString16 (max' - min')) + 1) div 2) randomSource))"
  have "0 \<le> js_rem ?drawn (max' - min') \<and> js_rem ?drawn (max' - min') < max' - min'"
    using assms by (intro js_rem_nonneg BigInt_0x_nonneg) simp
  then show ?thesis using assms by (simp add: generateRandomBigInt_def Let_def)
qed

lemma collect_all_Inr:
  "\<forall>r\<in>set rs. \<exists>x. r = Inr x \<and> P x \<Longrightarrow>
   \<exists>xs. collect rs = Inr xs \<and> length xs = length rs \<and> (\<forall>x\<in>set xs. P x)"
proof (induction rs)
  case Nil
  show ?case by simp
next
  case (Cons r rs)
  then obtain x where r: "r = Inr x" "P x" by auto
  from Cons obtain xs where xs: "collect rs = Inr xs" "length xs = length rs" "\<forall>x\<in>set xs. P x"
    by auto
  show ?case using r xs by simp
qed

text \<open>
  Claim C9 says that the scalar \<open>b\<close> of \<^verbatim>\<open>generateLWESample\<close> is the inner product of \<open>a\<close>
  with a secret vector, plus the error, modulo the modulus. The function takes no secret:
  with dimension 1, modulus 1000, the random bytes \<^verbatim>\<open>00 00\<close> for \<open>a\<close> and \<^verbatim>\<open>00 05\<close> for \<open>b\<close> and
  the error 0 it returns \<open>a = [0]\<close> and \<open>b = 5\<close>, which no secret explains.
\<close>

theorem generateLWESample_not_inner_product:
  "generateLWESample 1 1000 8 [[0, 0]] 0 [0, 5] = Inr ([0], 5)
   \<and> \<not> (\<exists>secret. (5 :: int) = (sum_list (map2 (*) [0] secret) + 0) mod 1000)"
proof
  have "BigInt_toString16 1000 = ''3e8''"
    by (simp add: BigInt_toString16_def nat_toString16.simps hexDigit_def)
  then show "generateLWESample 1 1000 8 [[0, 0]] 0 [0, 5] = Inr ([0], 5)"
    by (simp add: generateLWESample_def generateRandomBigInt_def draw_def Let_def
        BigInt_0x_toHex be_val_def js_rem_def)
  have "sum_list (map2 (*) [0 :: int] secret) = 0" for secret
    by (cases secret) simp_all
  then show "\<not> (\<exists>secret. (5 :: int) = (sum_list (map2 (*) [0] secret) + 0) mod 1000)"
    by simp
qed

lemma generateLWESample_ok:
  assumes "0 < q"
  shows "\<exists>a r. generateLWESample n q errorBound aRandom gaussianError bRandom =
                 Inr (a, js_rem (r + gaussianError) q)
           \<and> length a = nat n \<and> (\<forall>x\<in>set a. 0 \<le> x \<and> x < q)
           \<and> generateRandomBigInt 0 q bRandom = Inr r \<and> 0 \<le> r \<and> r < q"
proof -
  let ?rs = "map (\<lambda>i. generateRandomBigInt 0 q (draw aRandom i)) [0..<nat n]"
  have "\<forall>r\<in>set ?rs. \<exists>x. r = Inr x \<and> (0 \<le> x \<and> x < q)"
    using generateRandomBigInt_range [OF assms] by auto
  then obtain a where a: "collect ?rs = Inr a" "length a = length ?rs"
      "\<forall>x\<in>set a. 0 \<le> x \<and> x < q"
    using collect_all_Inr [of ?rs "\<lambda>x. 0 \<le> x \<and> x < q"] by blast
  obtain r where r: "generateRandomBigInt 0 q bRandom = Inr r" "0 \<le> r" "r < q"
    using generateRandomBigInt_range [OF assms] by blast
  show ?thesis
    using a r by (intro exI [of _ a] exI [of _ r]) (simp add: generateLWESample_def)
qed

text \<open>
  Claim C9, amended: for a positive modulus, \<^verbatim>\<open>generateLWESample\<close> returns a vector \<open>a\<close> of
  \<open>dimension\<close> integers in \<open>[0, modulus)\<close> and the scalar \<open>b = (r + error) % modulus\<close>, where
  \<open>r\<close> is one more random integer in \<open>[0, modulus)\<close>, drawn independently of \<open>a\<close>; no secret is
  involved.
\<close>

theorem generateLWESample_result:
  assumes "0 < q"
  shows "\<exists>a r. generateLWESample n q errorBound aRandom gaussianError bRandom =
                 Inr (a, js_rem (r + gaussianError) q)
           \<and> length a = nat n \<and> (\<forall>x\<in>set a. 0 \<le> x \<and> x < q)
           \<and> generateRandomBigInt 0 q bRandom = Inr r \<and> 0 \<le> r \<and> r < q"
  using assms by (rule generateLWESample_ok)

theorem generateLWESample_result_witness:
  "(0 :: int) < 1000
   \<and> generateLWESample 2 1000 8 [[0, 7], [3, 233]] (- 9) [0, 5] = Inr ([7, 1], - 4)"
proof -
  have h: "BigInt_toString16 1000 = ''3e8''"
    by (simp add: BigInt_toString16_def nat_toString16.simps hexDigit_def)
  obtain a r where
    "generateLWESample 2 1000 8 [[0, 7], [3, 233]] (- 9) [0, 5] = Inr (a, js_rem (r + (- 9)) 1000)"
    using generateLWESample_result [of 1000 2 8 "[[0, 7], [3, 233]]" "- 9" "[0, 5]"] by auto
  then show ?thesis
    using h by (simp add: generateLWESample_def generateRandomBigInt_def draw_def Let_def
        BigInt_0x_toHex be_val_def js_rem_def upt_rec)
qed

section \<open>The hash-chain engine: creation and verification\<close>














section \<open>The lattice engine: a created proof that is rejected\<close>

lemma bufferToBigInts_empty: "i < nat \<lceil>c\<rceil> \<Longrightarrow> bufferToBigInts [] c ! i = 0"
  by (simp add: bufferToBigInts_eq be_val_Nil)

lemma js_rem_zero: "js_rem 0 m = 0"
  by (simp add: js_rem_def)

lemma inner_product_zero:
  "\<forall>i<n. zs ! i = 0 \<Longrightarrow>
   foldl (\<lambda>acc i. js_rem (acc + a ! i * zs ! i) m) 0 [0..<n] = (0 :: int)"
  by (induction n) (simp_all add: js_rem_zero)

lemma js_rem_small_negative: "e < 0 \<Longrightarrow> - m < e \<Longrightarrow> js_rem e m = e"
  by (simp add: js_rem_def sgn_if)

text \<open>
  For the empty secret the inner product is 0, so a negative error makes the commitment
  integer negative, and a negative integer is serialized to the empty buffer.
\<close>

lemma createLWECommitment_empty_secret:
  assumes "e < 0" and "- m < e"
  shows "createLWECommitment a [] m e = []"
proof -
  have "\<forall>i<length a. bufferToBigInts [] (of_nat (length a)) ! i = 0"
    by (simp add: bufferToBigInts_empty)
  then have "foldl (\<lambda>acc i. js_rem (acc + a ! i * bufferToBigInts [] (of_nat (length a)) ! i) m)
               0 [0..<length a] = 0"
    by (rule inner_product_zero)
  then show ?thesis
    using assms
    by (simp add: createLWECommitment_def Let_def js_rem_small_negative bigIntsToBuffer_def
        bigIntToBuffer_negative)
qed

lemma LatticeZKP_verifyProof_empty_commitment:
  "commitment prf = Some [] \<Longrightarrow> \<not> LatticeZKP_verifyProof prf"
  by (simp add: LatticeZKP_verifyProof_def)

lemma validate_lattice:
  "validateParameters ''lattice'' (noParameters\<lparr>p_dimension := Some d, p_modulus := Some m\<rparr>)
     \<longleftrightarrow> 128 \<le> d \<and> 0 < m"
  by (auto simp: validateParameters_def validateLatticeParameters_def noParameters_def)

lemma LatticeZKP_createProof_default:
  assumes "0 < largePrime rnd"
  shows "\<exists>prf a. LatticeZKP_createProof secretValue noParameters rnd now = Inr prf
           \<and> commitment prf =
               Some (createLWECommitment a (secretBuffer secretValue) (largePrime rnd)
                       (commitmentError rnd))
           \<and> dimension prf = Some 256 \<and> modulus prf = Some (largePrime rnd)"
proof -
  obtain a r where
    "generateLWESample 256 (largePrime rnd) 8 (aBytes rnd) (sampleError rnd) (bBytes rnd) =
       Inr (a, js_rem (r + sampleError rnd) (largePrime rnd))"
    using generateLWESample_ok [OF assms, of 256 8 "aBytes rnd" "sampleError rnd" "bBytes rnd"]
    by blast
  moreover have "p_dimension noParameters = None" "p_modulus noParameters = None"
    by (simp_all add: noParameters_def)
  ultimately show ?thesis
    using assms by (auto simp: LatticeZKP_createProof_def validate_lattice Let_def)
qed

text \<open>
  Claim C1 says that, for every secret and each of the four engines, the proof that
  \<^verbatim>\<open>createProof\<close> returns with default parameters passes \<^verbatim>\<open>verifyProof\<close>. The lattice engine
  breaks it: for the empty secret, the prime \<open>2\<^sup>1\<^sup>0\<^sup>2\<^sup>3 + 1155\<close> as modulus and the Gaussian error
  \<open>-9\<close> the commitment integer is \<open>-9\<close>, the commitment buffer is empty, and the proof is
  rejected.
\<close>

theorem LatticeZKP_rejects_own_proof:
  "(case LatticeZKP_createProof (SecretString '''') noParameters
           \<lparr>largePrime = 2 ^ 1023 + 1155, aBytes = replicate 256 (replicate 128 7),
            sampleError = 0, bBytes = replicate 128 7, witnessBytes = replicate 32 1,
            commitmentError = - 9, polynomialBytes = replicate 256 (replicate 9 7)\<rparr> 0 of
      Inl e \<Rightarrow> False
    | Inr prf \<Rightarrow> commitment prf = Some [] \<and> LatticeZKP_verifyProof prf = False)"
proof -
  let ?rnd = "\<lparr>largePrime = 2 ^ 1023 + 1155, aBytes = replicate 256 (replicate 128 7),
            sampleError = 0, bBytes = replicate 128 7, witnessBytes = replicate 32 1,
            commitmentError = - 9, polynomialBytes = replicate 256 (replicate 9 7)\<rparr>"
  have pos: "0 < largePrime ?rnd" by simp
  obtain created a where p:
      "LatticeZKP_createProof (SecretString '''') noParameters ?rnd 0 = Inr created"
      "commitment created =
         Some (createLWECommitment a (secretBuffer (SecretString '''')) (largePrime ?rnd)
                 (commitmentError ?rnd))"
    using LatticeZKP_createProof_default [OF pos, of "SecretString ''''" 0] by blast
  have "createLWECommitment a [] (2 ^ 1023 + 1155) (- 9) = []"
    by (rule createLWECommitment_empty_secret) simp_all
  then have c: "commitment created = Some []" using p(2) by (simp add: utf8_def)
  then have "\<not> LatticeZKP_verifyProof created"
    by (rule LatticeZKP_verifyProof_empty_commitment)
  with c p(1) show ?thesis by simp
qed

section \<open>Replacing a field of a proof\<close>














section \<open>Faults during verification\<close>

























end
